theory Spec2Isabelle
  imports Complex_Main
begin

section \<open>The narration engine of \<^verbatim>\<open>TTS/engine_wrapper.py\<close>\<close>

text \<open>
  The class \<^verbatim>\<open>TTSEngine\<close> turns the title, the optional post text and the comments of a
  thread into audio files and keeps a running total of the audio's duration. Its three
  accumulators and the audio files it leaves in its directory are the state of the model.

  Durations are the \<^verbatim>\<open>clip.duration\<close> values of moviepy, Python floats (doubles). A
  double is modelled by the real number it stands for. The sum and the difference of two
  doubles are rounded to a double: the code's \<^verbatim>\<open>x + y\<close> and \<^verbatim>\<open>x - y\<close> are \<open>fl (x + y)\<close> and
  \<open>fl (x - y)\<close> in the model, where \<open>fl\<close> is the rounding of the arithmetic, a parameter of
  which the general theorems assume nothing. A comparison of two doubles does not round.
  Infinities and NaN are left out: durations are finite.

  Strings are lists of characters. The speech module, the duration probe and
  \<^verbatim>\<open>process_text\<close> (whose helper \<^verbatim>\<open>sanitize_text\<close> and whose translation service live outside
  this file) are parameters of the model too, collected in the record \<open>engine\<close>.
\<close>

subsection \<open>Audio files\<close>

text \<open>
  The files of a run are \<^verbatim>\<open>title.mp3\<close>, \<^verbatim>\<open>posttext.mp3\<close>, \<^verbatim>\<open>{idx}.mp3\<close> for a comment and
  \<^verbatim>\<open>{idx}-{n}.part.mp3\<close> for a piece of a split comment. The number of a piece is the
  difference \<^verbatim>\<open>idy - offset\<close> of two counters, an integer.
\<close>

datatype mp3 = Title | PostText | CommentMp3 nat | PartMp3 nat int

subsection \<open>State and parameters\<close>

text \<open>
  \<open>length_t\<close> is \<^verbatim>\<open>self.length\<close>. \<open>files\<close> holds the audio files known to be readable in
  the run's directory, and \<open>tts_calls\<close> records, in order, the file name and the text of
  every call of the speech module.
\<close>

record tts_state =
  length_t :: real
  last_clip_length :: real
  racked_up_split_length :: real
  files :: "mp3 set"
  tts_calls :: "(mp3 \<times> string) list"

text \<open>
  \<open>tts f text\<close> is what \<^verbatim>\<open>AudioFileClip\<close> reads after the speech module ran on \<open>text\<close>
  with target \<open>f\<close>: \<open>Some d\<close> is a clip of duration \<open>d\<close>, \<open>None\<close> is a file that cannot be
  opened, which raises inside the \<^verbatim>\<open>try\<close> block of \<^verbatim>\<open>call_tts\<close>. \<open>fl\<close> is the rounding of
  the float arithmetic.
\<close>

record engine =
  tts :: "mp3 \<Rightarrow> string \<Rightarrow> real option"
  process_text :: "string \<Rightarrow> string"
  max_chars :: nat
  max_length :: real
  storymode :: bool
  fl :: "real \<Rightarrow> real"

subsection \<open>\<^verbatim>\<open>call_tts\<close>\<close>

definition call_tts :: "engine \<Rightarrow> mp3 \<Rightarrow> string \<Rightarrow> bool \<Rightarrow> tts_state \<Rightarrow> bool \<times> tts_state" where
  "call_tts e filename text split s =
     (let s1 = s\<lparr>tts_calls := tts_calls s @ [(filename, text)]\<rparr> in
      case tts e filename text of
        None \<Rightarrow> (False, s1)
      | Some duration \<Rightarrow>
          (True,
           s1\<lparr>last_clip_length := duration,
              length_t := fl e (length_t s1 + duration),
              racked_up_split_length :=
                (if split then fl e (racked_up_split_length s1 + duration)
                 else racked_up_split_length s1),
              files := insert filename (files s1)\<rparr>))"

subsection \<open>The pieces of a long comment\<close>

text \<open>
  \<^verbatim>\<open>split_post\<close> cuts the text with \<^verbatim>\<open>re.finditer\<close> and the pattern
  \<^verbatim>\<open> *(((.|\n){0,N})(\.|.$))\<close>, where \<open>N\<close> is \<^verbatim>\<open>max_chars\<close>. The matcher of Python
  backtracks: at a position it takes as many spaces as there are, then as many characters
  as it can, at most \<open>N\<close>, and gives characters back one by one until the terminator
  \<^verbatim>\<open>(\.|.$)\<close> matches; when no count of characters works it gives back a space and starts
  again; when nothing works the scan moves one character on.

  \<open>terminator_at r\<close>: the terminator matches at the head of \<open>r\<close>, which is a full stop, or a
  character other than a newline that stands at the end of the text or before the text's
  final newline.
\<close>

definition terminator_at :: "string \<Rightarrow> bool" where
  "terminator_at r =
     (case r of
        [] \<Rightarrow> False
      | c # r' \<Rightarrow>
          if c = CHR ''.'' then True
          else if c = CHR 0x0A then False
          else (r' = [] \<or> r' = [CHR 0x0A]))"

text \<open>
  \<open>try_body k b\<close>: the group \<^verbatim>\<open>(.|\n){0,N}\<close> holding \<open>k\<close> characters of \<open>b\<close>, then fewer; the
  result is the number of characters it keeps.
\<close>

fun try_body :: "nat \<Rightarrow> string \<Rightarrow> nat option" where
  "try_body 0 b = (if terminator_at b then Some 0 else None)"
| "try_body (Suc k) b =
     (if terminator_at (drop (Suc k) b) then Some (Suc k) else try_body k b)"

text \<open>
  \<open>try_spaces n sp t\<close>: \<^verbatim>\<open> *\<close> holding \<open>sp\<close> spaces of \<open>t\<close>, then fewer. The result is the
  number of characters of the match after its last one taken away, so that a match has
  \<open>Suc\<close> of it.
\<close>

fun try_spaces :: "nat \<Rightarrow> nat \<Rightarrow> string \<Rightarrow> nat option" where
  "try_spaces n 0 t =
     (case try_body n t of Some k \<Rightarrow> Some k | None \<Rightarrow> None)"
| "try_spaces n (Suc sp) t =
     (case try_body n (drop (Suc sp) t) of
        Some k \<Rightarrow> Some (Suc sp + k)
      | None \<Rightarrow> try_spaces n sp t)"

definition match_at :: "nat \<Rightarrow> string \<Rightarrow> nat option" where
  "match_at n t = try_spaces n (length (takeWhile (\<lambda>c. c = CHR '' '') t)) t"

text \<open>\<open>finditer n t\<close>: the matches of the pattern in \<open>t\<close>, from left to right.\<close>

fun finditer :: "nat \<Rightarrow> string \<Rightarrow> string list" where
  "finditer n [] = []"
| "finditer n (c # t) =
     (case match_at n (c # t) of
        None \<Rightarrow> finditer n t
      | Some m \<Rightarrow> (c # take m t) # finditer n (drop m t))"

text \<open>
  The white space of \<^verbatim>\<open>str.strip\<close> and \<^verbatim>\<open>str.isspace\<close>, among the characters below 256:
  the codes 9 to 13, 28 to 32, 133 and 160.
\<close>

definition whitespace :: "char \<Rightarrow> bool" where
  "whitespace c =
     (let n = (of_char c :: nat) in
      (9 \<le> n \<and> n \<le> 13) \<or> (28 \<le> n \<and> n \<le> 32) \<or> n = 133 \<or> n = 160)"

definition strip :: "string \<Rightarrow> string" where
  "strip t = rev (dropWhile whitespace (rev (dropWhile whitespace t)))"

definition isspace :: "string \<Rightarrow> bool" where
  "isspace t = (t \<noteq> [] \<and> list_all whitespace t)"

definition split_text :: "nat \<Rightarrow> string \<Rightarrow> string list" where
  "split_text n t = map strip (finditer n t)"

subsection \<open>\<^verbatim>\<open>split_post\<close>\<close>

text \<open>
  The loop over \<^verbatim>\<open>enumerate(split_text)\<close>, with its counters \<open>idy\<close> and \<open>offset\<close> and the list
  \<open>split_files\<close>. The result \<open>None\<close> is the early \<^verbatim>\<open>return\<close> after a failed call.
\<close>

fun split_loop ::
  "engine \<Rightarrow> nat \<Rightarrow> nat \<Rightarrow> nat \<Rightarrow> mp3 list \<Rightarrow> string list \<Rightarrow> tts_state
     \<Rightarrow> mp3 list option \<times> tts_state" where
  "split_loop e idx idy offset split_files [] s = (Some split_files, s)"
| "split_loop e idx idy offset split_files (text_cut # rest) s =
     (let new_text = process_text e text_cut in
      if new_text = [] \<or> isspace new_text
      then split_loop e idx (Suc idy) (Suc offset) split_files rest s
      else
        (case call_tts e (PartMp3 idx (int idy - int offset)) new_text True s of
           (False, s') \<Rightarrow>
             (None, s'\<lparr>length_t := fl e (length_t s' - racked_up_split_length s')\<rparr>)
         | (True, s') \<Rightarrow>
             split_loop e idx (Suc idy) offset
               (split_files @ [PartMp3 idx (int idy - int offset)]) rest s'))"

text \<open>
  After the loop the counter of the split is reset, the parts are concatenated into
  \<^verbatim>\<open>{idx}.mp3\<close> and the part files are removed. moviepy's \<^verbatim>\<open>concatenate_audioclips\<close> raises
  on an empty list of clips, and nothing in \<^verbatim>\<open>split_post\<close> or \<^verbatim>\<open>run\<close> catches that.
\<close>

datatype error = EmptyConcatenation

definition split_post :: "engine \<Rightarrow> string \<Rightarrow> nat \<Rightarrow> tts_state \<Rightarrow> error + tts_state" where
  "split_post e text idx s =
     (case split_loop e idx 0 0 [] (split_text (max_chars e) text) s of
        (None, s') \<Rightarrow> Inr s'
      | (Some split_files, s') \<Rightarrow>
          if split_files = [] then Inl EmptyConcatenation
          else Inr (s'\<lparr>racked_up_split_length := 0,
                       files := insert (CommentMp3 idx) (files s') - set split_files\<rparr>))"

subsection \<open>\<^verbatim>\<open>run\<close>\<close>

record comment =
  comment_body :: string

record reddit_object =
  thread_title :: string
  thread_post :: string
  comments :: "comment list"

text \<open>
  The loop over \<^verbatim>\<open>enumerate(comments)\<close>; \<open>i\<close> is the index of the next comment and \<open>idx\<close> the
  variable of that name, \<open>None\<close> before the first comment.
\<close>

fun run_loop ::
  "engine \<Rightarrow> nat \<Rightarrow> comment list \<Rightarrow> int option \<Rightarrow> tts_state
     \<Rightarrow> error + (int option \<times> tts_state)" where
  "run_loop e i [] idx s = Inr (idx, s)"
| "run_loop e i (c # cs) idx s =
     (if length_t s > max_length e
      then Inr (Some (int i - 1),
                s\<lparr>length_t := fl e (length_t s - last_clip_length s)\<rparr>)
      else if length (comment_body c) > max_chars e
      then
        (case split_post e (comment_body c) i s of
           Inl err \<Rightarrow> Inl err
         | Inr s' \<Rightarrow> run_loop e (Suc i) cs (Some (int i)) s')
      else
        run_loop e (Suc i) cs (Some (int i))
          (snd (call_tts e (CommentMp3 i) (process_text e (comment_body c)) False s)))"

text \<open>The state of a new \<^verbatim>\<open>TTSEngine\<close> whose directory holds the files \<open>fs\<close>.\<close>

definition init :: "real \<Rightarrow> mp3 set \<Rightarrow> tts_state" where
  "init last_clip fs =
     \<lparr>length_t = 0, last_clip_length = last_clip, racked_up_split_length = 0,
      files = fs, tts_calls = []\<rparr>"

text \<open>\<open>run_state\<close> is \<^verbatim>\<open>run\<close> with the engine's final state; \<open>run\<close> gives the returned pair.\<close>

definition run_state :: "engine \<Rightarrow> reddit_object \<Rightarrow> tts_state \<Rightarrow> error + (int option \<times> tts_state)" where
  "run_state e r s =
     (let s0 = s\<lparr>files := files s - {PostText}\<rparr>;
          s1 = snd (call_tts e Title (process_text e (thread_title r)) False s0);
          processed_text = process_text e (thread_post r);
          s2 = (if processed_text \<noteq> [] \<and> storymode e
                then snd (call_tts e PostText processed_text False s1) else s1)
      in run_loop e 0 (comments r) None s2)"

definition run :: "engine \<Rightarrow> reddit_object \<Rightarrow> tts_state \<Rightarrow> error + (real \<times> int option)" where
  "run e r s =
     (case run_state e r s of
        Inl err \<Rightarrow> Inl err
      | Inr (idx, s') \<Rightarrow> Inr (length_t s', idx))"

section \<open>Notions used to state the properties\<close>

text \<open>The calls of the speech module made between the states \<open>s\<close> and \<open>s'\<close>.\<close>

definition new_calls :: "tts_state \<Rightarrow> tts_state \<Rightarrow> (mp3 \<times> string) list" where
  "new_calls s s' = drop (length (tts_calls s)) (tts_calls s')"

text \<open>
  The processed pieces that pass the test of the loop in \<^verbatim>\<open>split_post\<close>, in order, and
  the part files with the numbers \<open>k\<close> to \<open>k + m - 1\<close>.
\<close>

definition pieces :: "engine \<Rightarrow> string list \<Rightarrow> string list" where
  "pieces e cuts = filter (\<lambda>t. \<not> (t = [] \<or> isspace t)) (map (process_text e) cuts)"

definition part_names :: "nat \<Rightarrow> nat \<Rightarrow> nat \<Rightarrow> mp3 list" where
  "part_names idx k m = map (\<lambda>n. PartMp3 idx (int n)) [k..<k + m]"

text \<open>
  The first chunk as the specification describes the cut, at the first full stop at or
  after the limit of \<open>n\<close> characters.
\<close>

definition first_stop_from :: "nat \<Rightarrow> string \<Rightarrow> nat option" where
  "first_stop_from k t =
     (case dropWhile (\<lambda>c. c \<noteq> CHR ''.'') (drop k t) of
        [] \<Rightarrow> None
      | _ \<Rightarrow> Some (k + length (takeWhile (\<lambda>c. c \<noteq> CHR ''.'') (drop k t))))"

definition claimed_first_chunk :: "nat \<Rightarrow> string \<Rightarrow> string" where
  "claimed_first_chunk n t =
     (case first_stop_from n t of None \<Rightarrow> t | Some j \<Rightarrow> take (Suc j) t)"

text \<open>The three accumulators of a state.\<close>

definition accounts :: "tts_state \<Rightarrow> real \<times> real \<times> real" where
  "accounts s = (length_t s, last_clip_length s, racked_up_split_length s)"

section \<open>Example runs\<close>

text \<open>
  The durations of the examples are whole numbers of seconds below ten. Sums and
  differences of such doubles are whole numbers again and are exact, so the examples take
  the identity for \<open>fl\<close>.

  A thread with three short comments, a title of 2 seconds, comments of 3 seconds each and a
  budget of 7 seconds; the post text is empty and texts are processed unchanged.
  \<open>demo_pair\<close> is the same thread with its first two comments only.
\<close>

definition demo_engine :: engine where
  "demo_engine =
     \<lparr>tts = (\<lambda>f t. case f of Title \<Rightarrow> Some 2 | CommentMp3 i \<Rightarrow> Some 3 | _ \<Rightarrow> None),
      process_text = (\<lambda>t. t), max_chars = 20, max_length = 7, storymode = False,
      fl = (\<lambda>x. x)\<rparr>"

definition demo_thread :: reddit_object where
  "demo_thread =
     \<lparr>thread_title = ''Title'', thread_post = [],
      comments = [\<lparr>comment_body = ''one''\<rparr>, \<lparr>comment_body = ''two''\<rparr>,
                  \<lparr>comment_body = ''three''\<rparr>]\<rparr>"

definition demo_pair :: reddit_object where
  "demo_pair =
     \<lparr>thread_title = ''Title'', thread_post = [],
      comments = [\<lparr>comment_body = ''one''\<rparr>, \<lparr>comment_body = ''two''\<rparr>]\<rparr>"

text \<open>An engine whose speech module never produces a readable file.\<close>

definition silent_engine :: engine where
  "silent_engine =
     \<lparr>tts = (\<lambda>f t. None), process_text = (\<lambda>t. t), max_chars = 5, max_length = 50,
      storymode = False, fl = (\<lambda>x. x)\<rparr>"

text \<open>
  Engines with a limit of 4 characters, so that \<^verbatim>\<open>aaa.bbb.\<close> is split into \<^verbatim>\<open>aaa.\<close> and
  \<^verbatim>\<open>bbb.\<close>. In \<open>split_engine\<close> every part lasts 1 second, the title 1 and a whole comment
  3; in \<open>part_engine\<close> the first part of a comment lasts 3 seconds and the others 4, the
  title 2; in \<open>failing_engine\<close> the first part lasts 1 second and no other part is
  readable, the title lasts 2 and a whole comment 3. \<open>mixed_thread\<close> is \<open>failing_thread\<close>
  with a short third comment.
\<close>

definition split_engine :: engine where
  "split_engine =
     \<lparr>tts = (\<lambda>f t. case f of Title \<Rightarrow> Some 1 | PostText \<Rightarrow> None
                   | CommentMp3 i \<Rightarrow> Some 3 | PartMp3 i n \<Rightarrow> Some 1),
      process_text = (\<lambda>t. t), max_chars = 4, max_length = 7, storymode = False,
      fl = (\<lambda>x. x)\<rparr>"

definition part_engine :: engine where
  "part_engine =
     \<lparr>tts = (\<lambda>f t. case f of Title \<Rightarrow> Some 2 | PostText \<Rightarrow> None
                   | CommentMp3 i \<Rightarrow> Some 3
                   | PartMp3 i n \<Rightarrow> if n = 0 then Some 3 else Some 4),
      process_text = (\<lambda>t. t), max_chars = 4, max_length = 7, storymode = False,
      fl = (\<lambda>x. x)\<rparr>"

definition part_thread :: reddit_object where
  "part_thread =
     \<lparr>thread_title = ''T'', thread_post = [],
      comments = [\<lparr>comment_body = ''aaa.bbb.''\<rparr>, \<lparr>comment_body = ''c''\<rparr>]\<rparr>"

definition failing_engine :: engine where
  "failing_engine =
     \<lparr>tts = (\<lambda>f t. case f of Title \<Rightarrow> Some 2 | PostText \<Rightarrow> None
                   | CommentMp3 i \<Rightarrow> Some 3
                   | PartMp3 i n \<Rightarrow> if n = 0 then Some 1 else None),
      process_text = (\<lambda>t. t), max_chars = 4, max_length = 50, storymode = False,
      fl = (\<lambda>x. x)\<rparr>"

definition failing_thread :: reddit_object where
  "failing_thread =
     \<lparr>thread_title = ''T'', thread_post = [],
      comments = [\<lparr>comment_body = ''aaa.bbb.''\<rparr>, \<lparr>comment_body = ''ccc.ddd.''\<rparr>]\<rparr>"

definition mixed_thread :: reddit_object where
  "mixed_thread =
     \<lparr>thread_title = ''T'', thread_post = [],
      comments = [\<lparr>comment_body = ''aaa.bbb.''\<rparr>, \<lparr>comment_body = ''ccc.ddd.''\<rparr>,
                  \<lparr>comment_body = ''c''\<rparr>]\<rparr>"

section \<open>Accounting of one call\<close>

text \<open>
  C10. When the clip of the file just produced cannot be read, \<^verbatim>\<open>call_tts\<close> returns
  \<^verbatim>\<open>False\<close> and \<^verbatim>\<open>length\<close>, \<^verbatim>\<open>last_clip_length\<close> and \<^verbatim>\<open>racked_up_split_length\<close> keep their
  values: a failed unit adds nothing to any accumulator.
\<close>

theorem call_tts_failure_atomic:
  assumes "tts e filename text = None"
  shows "fst (call_tts e filename text split s) = False
       \<and> length_t (snd (call_tts e filename text split s)) = length_t s
       \<and> last_clip_length (snd (call_tts e filename text split s)) = last_clip_length s
       \<and> racked_up_split_length (snd (call_tts e filename text split s))
           = racked_up_split_length s
       \<and> files (snd (call_tts e filename text split s)) = files s"
  using assms by (simp add: call_tts_def Let_def)

theorem call_tts_failure_atomic_witness:
  "tts silent_engine Title ''hi'' = None
   \<and> fst (call_tts silent_engine Title ''hi'' True (init 0 {})) = False
   \<and> length_t (snd (call_tts silent_engine Title ''hi'' True (init 0 {}))) = 0
   \<and> last_clip_length (snd (call_tts silent_engine Title ''hi'' True (init 0 {}))) = 0
   \<and> racked_up_split_length (snd (call_tts silent_engine Title ''hi'' True (init 0 {}))) = 0"
proof -
  have h: "tts silent_engine Title ''hi'' = None"
    by (simp add: silent_engine_def)
  show ?thesis
    using h call_tts_failure_atomic [OF h, of True "init 0 {}"] by (simp add: init_def)
qed

section \<open>The end-to-end example\<close>

text \<open>
  C1, as the code runs it. Let the title give 2 seconds, let no post text be narrated, let
  the thread have three comments of which comments 0 and 1 are each synthesized in one
  call (neither is split) and give 3 seconds each, and let the budget be 7 seconds; the
  doubles 2, 5 and 8 are sums and differences of the doubles involved without rounding.
  Then the total is 2 after the title, 5 after comment 0 and 8 after comment 1 (shown by
  the runs on the shorter threads); on entering the iteration of comment 2 the budget is
  found exceeded, the 3 seconds of comment 1 are taken back, and \<^verbatim>\<open>run\<close> returns the total 5
  with the index 1: the loop variable of that iteration, 2, less one, which is the index
  of the comment whose duration was taken back.
\<close>

theorem run_example:
  assumes title: "tts e Title (process_text e (thread_title r)) = Some 2"
    and nobody: "process_text e (thread_post r) = [] \<or> \<not> storymode e"
    and cs: "comments r = [c0, c1, c2]"
    and short: "length (comment_body c0) \<le> max_chars e"
      "length (comment_body c1) \<le> max_chars e"
    and d0: "tts e (CommentMp3 0) (process_text e (comment_body c0)) = Some 3"
    and d1: "tts e (CommentMp3 1) (process_text e (comment_body c1)) = Some 3"
    and budget: "max_length e = 7"
    and exact: "fl e 2 = 2" "fl e 5 = 5" "fl e 8 = 8"
  shows "run e (r\<lparr>comments := []\<rparr>) (init l fs) = Inr (2, None)
       \<and> run e (r\<lparr>comments := [c0]\<rparr>) (init l fs) = Inr (5, Some 0)
       \<and> run e (r\<lparr>comments := [c0, c1]\<rparr>) (init l fs) = Inr (8, Some 1)
       \<and> run e r (init l fs) = Inr (5, Some 1)"
  using assms by (auto simp add: run_def run_state_def call_tts_def Let_def init_def)

theorem run_example_witness:
  "run demo_engine (demo_thread\<lparr>comments := []\<rparr>) (init 0 {}) = Inr (2, None)
   \<and> run demo_engine (demo_thread\<lparr>comments := [\<lparr>comment_body = ''one''\<rparr>]\<rparr>) (init 0 {})
       = Inr (5, Some 0)
   \<and> run demo_engine
        (demo_thread\<lparr>comments := [\<lparr>comment_body = ''one''\<rparr>, \<lparr>comment_body = ''two''\<rparr>]\<rparr>)
        (init 0 {}) = Inr (8, Some 1)
   \<and> run demo_engine demo_thread (init 0 {}) = Inr (5, Some 1)"
  using run_example [of demo_engine demo_thread "\<lparr>comment_body = ''one''\<rparr>"
      "\<lparr>comment_body = ''two''\<rparr>" "\<lparr>comment_body = ''three''\<rparr>" 0 "{}"]
  by (simp add: demo_engine_def demo_thread_def)

text \<open>The claim's returned index 0 is not what \<^verbatim>\<open>run\<close> returns on the example.\<close>

theorem run_example_index_counterexample:
  "run demo_engine demo_thread (init 0 {}) \<noteq> Inr (5, Some 0)"
  by (simp add: run_def run_state_def call_tts_def Let_def init_def demo_engine_def
      demo_thread_def)

section \<open>The cuts of the example texts\<close>

lemma cut_aaa_bbb: "split_text 4 ''aaa.bbb.'' = [''aaa.'', ''bbb.'']"
  by code_simp

lemma cut_ccc_ddd: "split_text 4 ''ccc.ddd.'' = [''ccc.'', ''ddd.'']"
  by code_simp

lemma example_pieces_kept:
  "\<not> isspace ''aaa.''" "\<not> isspace ''bbb.''" "\<not> isspace ''ccc.''" "\<not> isspace ''ddd.''"
  "\<not> isspace ''a''" "\<not> isspace ''b''" "isspace '' ''"
  by (simp_all add: isspace_def whitespace_def)

section \<open>The length of a chunk\<close>

lemma try_body_le: "try_body k b = Some j \<Longrightarrow> j \<le> k"
  by (induction k) (auto split: if_splits)

lemma try_spaces_parts:
  "try_spaces n sp t = Some m \<Longrightarrow> \<exists>sp' j. sp' \<le> sp \<and> j \<le> n \<and> m = sp' + j"
proof (induction sp)
  case 0
  then show ?case by (auto split: option.splits dest: try_body_le)
next
  case (Suc sp)
  show ?case
  proof (cases "try_body n (drop (Suc sp) t)")
    case None
    with Suc show ?thesis by (auto intro: le_SucI)
  next
    case (Some k)
    with Suc.prems have "m = Suc sp + k" by simp
    moreover have "k \<le> n" using Some by (rule try_body_le)
    ultimately show ?thesis by blast
  qed
qed

lemma space_whitespace: "c = CHR '' '' \<Longrightarrow> whitespace c"
  by (simp add: whitespace_def)

lemma take_leading:
  "sp \<le> length (takeWhile P xs) \<Longrightarrow> c \<in> set (take sp xs) \<Longrightarrow> P c"
proof (induction xs arbitrary: sp)
  case Nil
  then show ?case by simp
next
  case (Cons x xs)
  then show ?case by (cases sp) (auto split: if_splits)
qed

lemma leading_spaces_dropped:
  assumes "sp \<le> length (takeWhile (\<lambda>c. c = CHR '' '') xs)"
  shows "length (dropWhile whitespace (take (sp + j) xs)) \<le> j"
proof -
  have "\<forall>c \<in> set (take sp xs). whitespace c"
    using take_leading [OF assms] space_whitespace by blast
  then have "dropWhile whitespace (take sp xs @ take j (drop sp xs))
               = dropWhile whitespace (take j (drop sp xs))"
    by simp
  moreover have "length (dropWhile whitespace (take j (drop sp xs))) \<le> length (take j (drop sp xs))"
    by (rule length_dropWhile_le)
  ultimately have "length (dropWhile whitespace (take (sp + j) xs))
               \<le> length (take j (drop sp xs))"
    by (simp add: take_add)
  then show ?thesis by simp
qed

lemma length_strip_le: "length (strip t) \<le> length (dropWhile whitespace t)"
proof -
  have "length (dropWhile whitespace (rev (dropWhile whitespace t)))
          \<le> length (rev (dropWhile whitespace t))"
    by (rule length_dropWhile_le)
  then show ?thesis by (simp add: strip_def)
qed

lemma match_at_strip:
  assumes "match_at n xs = Some m"
  shows "length (strip (take (Suc m) xs)) \<le> Suc n"
proof -
  obtain sp j where sp: "sp \<le> length (takeWhile (\<lambda>c. c = CHR '' '') xs)"
    and j: "j \<le> n" and m: "m = sp + j"
    using assms try_spaces_parts unfolding match_at_def by blast
  have "length (dropWhile whitespace (take (sp + Suc j) xs)) \<le> Suc j"
    using sp by (rule leading_spaces_dropped)
  then have "length (strip (take (Suc m) xs)) \<le> Suc j"
    using length_strip_le [of "take (Suc m) xs"] m by simp
  then show ?thesis using j by simp
qed

lemma finditer_strip: "list_all (\<lambda>c. length (strip c) \<le> Suc n) (finditer n t)"
proof (induction n t rule: finditer.induct)
  case (1 n)
  then show ?case by simp
next
  case (2 n c t)
  show ?case
  proof (cases "match_at n (c # t)")
    case None
    with 2 show ?thesis by simp
  next
    case (Some m)
    have "length (strip (c # take m t)) \<le> Suc n"
      using match_at_strip [OF Some] by simp
    with 2 Some show ?thesis by simp
  qed
qed

text \<open>
  C7, as the code cuts. Every chunk has at most \<open>n + 1\<close> characters, for every text and
  every limit \<open>n\<close>: after the leading spaces a match holds at most \<open>n\<close> characters and then
  its terminator, and the leading spaces are stripped. The pattern never takes a terminator
  that lies further away; it takes the last one within reach, and where there is none
  within reach the scan moves on and the characters it passes over are in no chunk.
\<close>

theorem split_text_chunk_bound:
  "list_all (\<lambda>c. length c \<le> n + 1) (split_text n t)"
  using finditer_strip [of n t]
  by (simp add: split_text_def list_all_iff)

theorem split_text_chunk_bound_witness:
  "list_all (\<lambda>c. length c \<le> 3 + 1) (split_text 3 ''aa.bbbbb.'')
   \<and> split_text 3 ''aa.bbbbb.'' = [''aa.'', ''bbb.'']"
proof -
  have a: "list_all (\<lambda>c. length c \<le> 3 + 1) (split_text 3 ''aa.bbbbb.'')"
    by (rule split_text_chunk_bound)
  have b: "split_text 3 ''aa.bbbbb.'' = [''aa.'', ''bbb.'']"
    by code_simp
  show ?thesis by (rule conjI [OF a b])
qed

text \<open>
  The claim lets a chunk run to the first terminator at or after the limit. With the
  limit 3, the text \<^verbatim>\<open>aaaaaa.\<close> would then be one chunk of 7 characters; the code returns
  the chunk \<^verbatim>\<open>aaa.\<close> alone and drops the first three characters. In \<^verbatim>\<open>aa.bbbbb.\<close> the
  first chunk ends at the full stop before the limit, and the second is \<^verbatim>\<open>bbb.\<close>.
\<close>

theorem split_text_first_stop_counterexample:
  "split_text 3 ''aaaaaa.'' = [''aaa.'']
   \<and> claimed_first_chunk 3 ''aaaaaa.'' = ''aaaaaa.''
   \<and> split_text 3 ''aa.bbbbb.'' = [''aa.'', ''bbb.'']
   \<and> claimed_first_chunk 3 ''aa.bbbbb.'' = ''aa.bbbbb.''"
  by code_simp

section \<open>The calls made for a split comment\<close>

lemma part_names_Suc: "part_names idx k (Suc m) = PartMp3 idx (int k) # part_names idx (Suc k) m"
  by (simp add: part_names_def upt_conv_Cons)

lemma call_tts_calls:
  "tts_calls (snd (call_tts e f t b s)) = tts_calls s @ [(f, t)]"
  by (simp add: call_tts_def Let_def split: option.splits)

lemma split_loop_calls:
  assumes "int idy - int offset = int k"
  shows "\<exists>m \<le> length (pieces e cuts).
           tts_calls (snd (split_loop e idx idy offset sf cuts s))
             = tts_calls s @ zip (part_names idx k m) (take m (pieces e cuts))"
  using assms
proof (induction cuts arbitrary: idy offset sf s k)
  case Nil
  then show ?case by (simp add: pieces_def part_names_def)
next
  case (Cons text_cut rest)
  let ?t = "process_text e text_cut"
  show ?case
  proof (cases "?t = [] \<or> isspace ?t")
    case True
    have "int (Suc idy) - int (Suc offset) = int k" using Cons.prems by simp
    moreover have "pieces e (text_cut # rest) = pieces e rest"
      using True by (auto simp add: pieces_def)
    moreover have "split_loop e idx idy offset sf (text_cut # rest) s
                     = split_loop e idx (Suc idy) (Suc offset) sf rest s"
      using True by auto
    ultimately show ?thesis
      using Cons.IH [of "Suc idy" "Suc offset" k sf s] by simp
  next
    case False
    have nm: "PartMp3 idx (int idy - int offset) = PartMp3 idx (int k)"
      using Cons.prems by simp
    have P: "pieces e (text_cut # rest) = ?t # pieces e rest"
      using False by (simp add: pieces_def)
    obtain ok s' where c: "call_tts e (PartMp3 idx (int k)) ?t True s = (ok, s')"
      by (cases "call_tts e (PartMp3 idx (int k)) ?t True s")
    have calls: "tts_calls s' = tts_calls s @ [(PartMp3 idx (int k), ?t)]"
      using call_tts_calls [of e "PartMp3 idx (int k)" ?t True s] c by simp
    show ?thesis
    proof (cases ok)
      case False
      have "tts_calls (snd (split_loop e idx idy offset sf (text_cut # rest) s))
              = tts_calls s @ zip (part_names idx k 1) (take 1 (pieces e (text_cut # rest)))"
        using \<open>\<not> (?t = [] \<or> isspace ?t)\<close> c False calls nm P
        by (simp add: part_names_def)
      moreover have "1 \<le> length (pieces e (text_cut # rest))" using P by simp
      ultimately show ?thesis by blast
    next
      case True
      have "int (Suc idy) - int offset = int (Suc k)" using Cons.prems by simp
      from Cons.IH [OF this, of "sf @ [PartMp3 idx (int k)]" s']
      obtain m where m: "m \<le> length (pieces e rest)"
        and eq: "tts_calls (snd (split_loop e idx (Suc idy) offset (sf @ [PartMp3 idx (int k)]) rest s'))
                  = tts_calls s' @ zip (part_names idx (Suc k) m) (take m (pieces e rest))"
        by blast
      have "tts_calls (snd (split_loop e idx idy offset sf (text_cut # rest) s))
              = tts_calls s @ zip (part_names idx k (Suc m)) (take (Suc m) (pieces e (text_cut # rest)))"
        using \<open>\<not> (?t = [] \<or> isspace ?t)\<close> c True calls nm P eq
        by (simp add: part_names_Suc)
      moreover have "Suc m \<le> length (pieces e (text_cut # rest))" using P m by simp
      ultimately show ?thesis by blast
    qed
  qed
qed

lemma pieces_kept: "list_all (\<lambda>t. t \<noteq> [] \<and> \<not> isspace t) (pieces e cuts)"
  by (simp add: pieces_def list_all_iff)

text \<open>
  C8. The part files named in the calls that the loop of \<^verbatim>\<open>split_post\<close> makes for comment
  \<open>idx\<close> carry the numbers \<open>0, 1, \<dots>, k - 1\<close> in the order of the calls, whatever pieces of
  the list \<open>cuts\<close> are dropped in between: a dropped piece advances \<open>idy\<close> and \<open>offset\<close>
  together and leaves the number \<open>idy - offset\<close> of the next call as it was.
\<close>

theorem split_loop_numbering:
  "map fst (new_calls s (snd (split_loop e idx 0 0 [] cuts s)))
     = map (\<lambda>n. PartMp3 idx (int n))
         [0..<length (new_calls s (snd (split_loop e idx 0 0 [] cuts s)))]"
proof -
  obtain m where m: "m \<le> length (pieces e cuts)"
    and eq: "tts_calls (snd (split_loop e idx 0 0 [] cuts s))
               = tts_calls s @ zip (part_names idx 0 m) (take m (pieces e cuts))"
    using split_loop_calls [of 0 0 0 e cuts idx "[]" s] by auto
  have len: "length (new_calls s (snd (split_loop e idx 0 0 [] cuts s))) = m"
    using m by (simp add: new_calls_def eq part_names_def)
  have "map fst (new_calls s (snd (split_loop e idx 0 0 [] cuts s))) = part_names idx 0 m"
    using m by (simp add: new_calls_def eq part_names_def map_fst_zip_take min_def)
  then show ?thesis by (simp add: len part_names_def)
qed

theorem split_loop_numbering_witness:
  "new_calls (init 0 {}) (snd (split_loop split_engine 5 0 0 [] [''a'', '' '', ''b''] (init 0 {})))
     = [(PartMp3 5 0, ''a''), (PartMp3 5 1, ''b'')]
   \<and> map fst
        (new_calls (init 0 {})
           (snd (split_loop split_engine 5 0 0 [] [''a'', '' '', ''b''] (init 0 {}))))
     = map (\<lambda>n. PartMp3 5 (int n)) [0..<2]"
proof -
  have a: "new_calls (init 0 {})
             (snd (split_loop split_engine 5 0 0 [] [''a'', '' '', ''b''] (init 0 {})))
           = [(PartMp3 5 0, ''a''), (PartMp3 5 1, ''b'')]"
    by (simp add: new_calls_def split_engine_def call_tts_def Let_def init_def
        example_pieces_kept)
  have len: "length (new_calls (init 0 {})
               (snd (split_loop split_engine 5 0 0 [] [''a'', '' '', ''b''] (init 0 {})))) = 2"
    unfolding a by simp
  have b: "map fst
             (new_calls (init 0 {})
                (snd (split_loop split_engine 5 0 0 [] [''a'', '' '', ''b''] (init 0 {}))))
           = map (\<lambda>n. PartMp3 5 (int n)) [0..<2]"
    using split_loop_numbering [of "init 0 {}" split_engine 5 "[''a'', '' '', ''b'']"]
    unfolding len .
  show ?thesis by (rule conjI [OF a b])
qed

text \<open>
  C9. The cut of the empty text is the empty list, and the loop makes no call on it. On
  every list of pieces, each text handed to the speech module is non-empty and not made
  of white space only, and the texts handed over are, in order, the first \<open>m\<close> of the
  processed pieces that pass the test of the loop (all of them unless a call fails).
\<close>

theorem chunker_output_valid:
  "split_text n [] = []
   \<and> new_calls s (snd (split_loop e idx 0 0 [] [] s)) = []
   \<and> list_all (\<lambda>c. snd c \<noteq> [] \<and> \<not> isspace (snd c))
        (new_calls s (snd (split_loop e idx 0 0 [] cuts s)))
   \<and> (\<exists>m. map snd (new_calls s (snd (split_loop e idx 0 0 [] cuts s)))
            = take m (pieces e cuts))"
proof -
  obtain m where m: "m \<le> length (pieces e cuts)"
    and eq: "tts_calls (snd (split_loop e idx 0 0 [] cuts s))
               = tts_calls s @ zip (part_names idx 0 m) (take m (pieces e cuts))"
    using split_loop_calls [of 0 0 0 e cuts idx "[]" s] by auto
  have nc: "new_calls s (snd (split_loop e idx 0 0 [] cuts s))
              = zip (part_names idx 0 m) (take m (pieces e cuts))"
    by (simp add: new_calls_def eq)
  have "set (take m (pieces e cuts)) \<subseteq> set (pieces e cuts)"
    by (rule set_take_subset)
  then have "\<forall>c \<in> set (zip (part_names idx 0 m) (take m (pieces e cuts))).
               snd c \<noteq> [] \<and> \<not> isspace (snd c)"
    using pieces_kept [of e cuts] by (auto simp: list_all_iff dest!: set_zip_rightD)
  then have valid: "list_all (\<lambda>c. snd c \<noteq> [] \<and> \<not> isspace (snd c))
                      (new_calls s (snd (split_loop e idx 0 0 [] cuts s)))"
    by (simp add: nc list_all_iff)
  have "length (part_names idx 0 m) = m" by (simp add: part_names_def)
  then have "map snd (new_calls s (snd (split_loop e idx 0 0 [] cuts s)))
               = take m (pieces e cuts)"
    using m by (simp add: nc map_snd_zip_take min_def)
  then have ordered: "\<exists>m. map snd (new_calls s (snd (split_loop e idx 0 0 [] cuts s)))
                          = take m (pieces e cuts)"
    by blast
  have empty: "split_text n [] = []" by (simp add: split_text_def)
  have none: "new_calls s (snd (split_loop e idx 0 0 [] [] s)) = []"
    by (simp add: new_calls_def)
  show ?thesis using empty none valid ordered by blast
qed

theorem chunker_output_valid_witness:
  "split_text 4 [] = []
   \<and> new_calls (init 0 {}) (snd (split_loop split_engine 5 0 0 [] [] (init 0 {}))) = []
   \<and> list_all (\<lambda>c. snd c \<noteq> [] \<and> \<not> isspace (snd c))
        (new_calls (init 0 {})
           (snd (split_loop split_engine 5 0 0 [] [''a'', '' '', ''b''] (init 0 {}))))
   \<and> (\<exists>m. map snd
              (new_calls (init 0 {})
                 (snd (split_loop split_engine 5 0 0 [] [''a'', '' '', ''b''] (init 0 {}))))
            = take m (pieces split_engine [''a'', '' '', ''b'']))"
  by (rule chunker_output_valid)

section \<open>The budget and the last comment\<close>

text \<open>
  C2. The budget is tested on entering an iteration and nowhere after the loop. On the
  thread of two comments of 3 seconds with a title of 2 seconds and a budget of 7, the
  total first exceeds the budget at comment 1, the last comment; nothing is taken back and
  \<^verbatim>\<open>run\<close> returns 8 with the index 1, not the 5 seconds of the title and comment 0. On the
  thread with one comment more the same overflow is taken back, and \<^verbatim>\<open>run\<close> returns 5 with
  the same index.
\<close>

theorem run_keeps_final_overflow:
  "run demo_engine demo_pair (init 0 {}) = Inr (8, Some 1)
   \<and> \<not> (\<exists>idx. run demo_engine demo_pair (init 0 {}) = Inr (2 + 3, idx))
   \<and> max_length demo_engine < 8
   \<and> run demo_engine demo_thread (init 0 {}) = Inr (5, Some 1)"
  by (simp add: run_def run_state_def call_tts_def Let_def init_def demo_engine_def
      demo_pair_def demo_thread_def)

section \<open>The accounts of a split comment\<close>

text \<open>
  C4. A comment of two parts whose second part cannot be read: \<^verbatim>\<open>split_post\<close> returns with
  the total back at 0 and with \<^verbatim>\<open>racked_up_split_length\<close> still at the 1 second of the first
  part, and that is the value with which the next split comment begins.
\<close>

theorem failed_split_keeps_counter:
  "map_sum id accounts (split_post failing_engine ''aaa.bbb.'' 0 (init 0 {}))
     = Inr (0, 1, 1)"
  by (simp add: split_post_def failing_engine_def cut_aaa_bbb example_pieces_kept
      call_tts_def Let_def init_def accounts_def)

text \<open>
  C3. Two split comments in a row, each failing on its second part, after a title of 2
  seconds. The second failure takes back 2 seconds where its comment had added 1, so the
  run ends with a total of 1, less than the title alone; and the first part of each
  comment is still among the files.
\<close>

theorem second_failed_split_over_refunds:
  "map_sum id (\<lambda>(idx, s'). (idx, length_t s', files s'))
     (run_state failing_engine failing_thread (init 0 {}))
   = Inr (Some 1, 1, {Title, PartMp3 0 0, PartMp3 1 0})"
  by (auto simp add: run_state_def split_post_def failing_engine_def failing_thread_def
      cut_aaa_bbb cut_ccc_ddd example_pieces_kept call_tts_def Let_def init_def)

text \<open>
  C6. A comment of two parts of 3 and 4 seconds, both readable: after \<^verbatim>\<open>split_post\<close> the
  total has grown by 7 and \<^verbatim>\<open>last_clip_length\<close> is 4, the duration of the last part. In
  the run with a title of 2 seconds and a budget of 7 the next iteration takes back those
  4 seconds only and \<^verbatim>\<open>run\<close> returns 5 with the index 0, although the comment taken back
  had added 7.
\<close>

theorem split_last_clip_is_last_part:
  "map_sum id accounts (split_post part_engine ''aaa.bbb.'' 0 (init 0 {})) = Inr (7, 4, 0)
   \<and> run part_engine part_thread (init 0 {}) = Inr (5, Some 0)"
  by (simp add: run_def run_state_def split_post_def part_engine_def part_thread_def
      cut_aaa_bbb example_pieces_kept call_tts_def Let_def init_def accounts_def)

text \<open>
  C5. Two split comments that fail on their second part, then a comment of 3 seconds, after
  a title of 2 seconds, with a budget never reached. The loop runs through and returns the
  index 2 with a total of 4. The readable clips the run leaves for the video are the title
  (2 seconds) and comment 2 (3 seconds), with the first parts of the two failed comments
  beside them; neither the title alone nor the title with comment 2 gives 4.
\<close>

theorem run_total_is_no_sum_of_clips:
  "map_sum id (\<lambda>(idx, s'). (idx, length_t s', files s'))
     (run_state failing_engine mixed_thread (init 0 {}))
   = Inr (Some 2, 4, {Title, PartMp3 0 0, PartMp3 1 0, CommentMp3 2})
   \<and> run failing_engine mixed_thread (init 0 {}) = Inr (4, Some 2)
   \<and> tts failing_engine Title ''T'' = Some 2
   \<and> tts failing_engine (CommentMp3 2) ''c'' = Some 3"
  by (auto simp add: run_def run_state_def split_post_def failing_engine_def mixed_thread_def
      cut_aaa_bbb cut_ccc_ddd example_pieces_kept call_tts_def Let_def init_def)

end
